theory Spec2Isabelle
  imports Complex_Main
begin

section \<open>Conventions of the embedding\<close>

text \<open>
  The program is a PyQt application: a panel window polls a microphone level on a 60 ms
  timer and drives an avatar window that shows an idle animation or a talking pose.
  The embedding follows the Python source function by function.

  \<^item> Python floats are the type \<^typ>\<open>real\<close>: rounding, infinities and NaN are outside
    the model.
  \<^item> A pixmap is a value of a type variable \<open>'p\<close>; \<open>None\<close> is Python's \<open>None\<close>.
  \<^item> Objects are records, mutation is state passing.
  \<^item> Values that the program takes from its environment are arguments of the function that
    takes them: \<open>now\<close> is the value of \<open>time.time()\<close>, \<open>u\<close> the value of
    \<open>random.random()\<close> inside \<open>random.uniform\<close>, \<open>r\<close> the value of
    \<open>random.randrange(len(self.idle_pix_list))\<close>.
  \<^item> The calls into Qt that the poll tick reaches can raise. Which of them raise is an
    argument as well, a set of call sites; a method that raises returns \<open>Exn\<close> with the
    object as its assignments left it, since Python undoes nothing.
\<close>

datatype site = Meter_update | Label_update | Idle_timer_call

datatype 's res = Ok 's | Exn 's

fun state_of :: "'s res \<Rightarrow> 's" where
  "state_of (Ok s) = s"
| "state_of (Exn s) = s"

fun raised :: "'s res \<Rightarrow> bool" where
  "raised (Ok s) = False"
| "raised (Exn s) = True"

definition and_then :: "'s res \<Rightarrow> ('s \<Rightarrow> 's res) \<Rightarrow> 's res" where
  "and_then x f = (case x of Ok s \<Rightarrow> f s | Exn s \<Rightarrow> Exn s)"

section \<open>audio.py: the loudness sampler\<close>

text \<open>
  \<open>Mic._rms_queue\<close> is a FIFO queue: \<open>put\<close> appends at the back, \<open>get_nowait\<close>
  takes from the front and raises \<open>queue.Empty\<close> on the empty queue.
\<close>

type_synonym rms_queue = "real list"

text \<open>
  \<open>Mic._stream_callback\<close>: \<open>input_data\<close> is \<open>None\<close> or a buffer of samples; nothing
  is published for \<open>None\<close> or for an empty buffer.
\<close>

definition root_mean_square :: "real list \<Rightarrow> real" where
  "root_mean_square xs =
     sqrt (sum_list (map (\<lambda>x. x * x) xs) / real (length xs)) + 1 / 1000000"

definition stream_callback :: "real list option \<Rightarrow> rms_queue \<Rightarrow> rms_queue" where
  "stream_callback input_data q =
     (case input_data of
        None \<Rightarrow> q
      | Some xs \<Rightarrow> if length xs = 0 then q else q @ [root_mean_square xs])"

text \<open>
  \<open>Mic.read\<close>: the \<open>while True\<close> loop takes one value per round and ends with the
  \<open>queue.Empty\<close> that the empty queue raises. The result is the returned value and the
  queue that is left.
\<close>

fun drain :: "real \<Rightarrow> rms_queue \<Rightarrow> real \<times> rms_queue" where
  "drain latest_value [] = (latest_value, [])"
| "drain latest_value (x # q) = drain x q"

definition read :: "rms_queue \<Rightarrow> real \<times> rms_queue" where
  "read q = drain 0 q"

section \<open>widgets/avatar.py: the avatar window\<close>

text \<open>
  The fields of \<open>AvatarWindow\<close> that the reactive engine uses. \<open>idle_timer\<close> is the
  \<open>QTimer\<close>: \<open>None\<close> when it is stopped, \<open>Some ms\<close> when it is running with an
  interval of \<open>ms\<close> milliseconds. \<open>shown\<close> is the pixmap on the label, \<open>None\<close> when
  the label shows the placeholder text.
\<close>

record 'p avatar =
  idle_pix_list :: "'p list"
  idle_index :: nat
  talk_pix :: "'p option"
  talk_variants :: "(real \<times> 'p) list"
  talk_level :: real
  is_talking :: bool
  idle_random :: bool
  idle_interval_min :: real
  idle_interval_max :: real
  idle_timer :: "int option"
  shown :: "'p option"

text \<open>
  An entry of the \<open>frames\<close> list handed to \<open>load_images\<close>, by what the loop reads from
  it: \<open>Not_a_dict\<close> fails \<open>isinstance(frame, dict)\<close>; \<open>Entry path th\<close> has
  \<open>str(frame.get("image") or "").strip() = path\<close>, and \<open>th\<close> is the value of
  \<open>float(frame.get("threshold", 0.0))\<close>, \<open>None\<close> when that conversion raises.
\<close>

datatype frame = Not_a_dict | Entry string "real option"

text \<open>
  The loop over \<open>talk_frames_data\<close>. The argument \<open>ld\<close> is
  \<open>load_scaled(path, int(width))\<close>, \<open>None\<close> when it raises; either exception of the
  \<open>try\<close> block skips the entry.
\<close>

fun load_variants :: "(string \<Rightarrow> 'p option) \<Rightarrow> frame list \<Rightarrow> (real \<times> 'p) list" where
  "load_variants ld [] = []"
| "load_variants ld (Not_a_dict # fs) = load_variants ld fs"
| "load_variants ld (Entry path th # fs) =
     (if path = [] then load_variants ld fs
      else case th of
             None \<Rightarrow> load_variants ld fs
           | Some threshold \<Rightarrow>
               (case ld path of
                  None \<Rightarrow> load_variants ld fs
                | Some pixmap \<Rightarrow> (threshold, pixmap) # load_variants ld fs))"

text \<open>\<open>_current_idle_pix\<close>.\<close>

definition current_idle_pix :: "'p avatar \<Rightarrow> 'p option" where
  "current_idle_pix a =
     (if idle_pix_list a = [] then None
      else Some (idle_pix_list a ! (idle_index a mod length (idle_pix_list a))))"

text \<open>
  \<open>_resolve_talk_variant\<close>: the loop over \<open>enumerate(self.talk_variants)\<close>, with the
  pair \<open>(best_index, candidate)\<close> as its accumulator.
\<close>

fun resolve_loop :: "real \<Rightarrow> (nat \<times> real \<times> 'p) list \<Rightarrow> int \<times> 'p option \<Rightarrow> int \<times> 'p option" where
  "resolve_loop current_level [] best = best"
| "resolve_loop current_level ((variant_index, threshold, pixmap) # rest) best =
     resolve_loop current_level rest
       (if current_level \<ge> threshold then (int variant_index, Some pixmap) else best)"

definition resolve_talk_variant :: "real option \<Rightarrow> 'p avatar \<Rightarrow> int \<times> 'p option" where
  "resolve_talk_variant level a =
     (let current_level = (case level of None \<Rightarrow> talk_level a | Some l \<Rightarrow> max 0 l)
      in resolve_loop current_level (enumerate 0 (talk_variants a)) (- 1, talk_pix a))"

text \<open>
  \<open>refresh\<close>: both branches end in calls on the label. A pixmap that was loaded
  counts as true in \<open>if not pixmap\<close>.
\<close>

definition refresh :: "site set \<Rightarrow> 'p avatar \<Rightarrow> 'p avatar res" where
  "refresh flt a =
     (let pixmap = (if is_talking a then snd (resolve_talk_variant None a)
                    else current_idle_pix a)
      in if Label_update \<in> flt then Exn a else Ok (a\<lparr>shown := pixmap\<rparr>))"

text \<open>
  \<open>random.uniform(a, b)\<close> is \<open>a + (b - a) * random()\<close>; \<open>int\<close> of a float truncates
  towards zero.
\<close>

definition uniform :: "real \<Rightarrow> real \<Rightarrow> real \<Rightarrow> real" where
  "uniform a b u = a + (b - a) * u"

definition py_int :: "real \<Rightarrow> int" where
  "py_int x = (if 0 \<le> x then \<lfloor>x\<rfloor> else \<lceil>x\<rceil>)"

text \<open>\<open>_update_idle_timer\<close>.\<close>

definition update_idle_timer :: "site set \<Rightarrow> real \<Rightarrow> 'p avatar \<Rightarrow> 'p avatar res" where
  "update_idle_timer flt u a =
     (if length (idle_pix_list a) \<le> 1 \<or> is_talking a then
        (if Idle_timer_call \<in> flt then Exn a else Ok (a\<lparr>idle_timer := None\<rparr>))
      else
        (let interval = uniform (idle_interval_min a) (idle_interval_max a) u
         in if Idle_timer_call \<in> flt then Exn a
            else Ok (a\<lparr>idle_timer := Some (py_int (interval * 1000))\<rparr>)))"

text \<open>
  \<open>load_images\<close>, called with a dictionary as \<open>talk_source\<close>: \<open>talk_default\<close> is
  \<open>str(talk_source.get("default", "")).strip()\<close> and \<open>frames\<close> is the list under
  \<open>"frames"\<close>. The two warning dialogs that list the files that failed to load are not
  part of the state.
\<close>

definition load_images ::
  "site set \<Rightarrow> real \<Rightarrow> (string \<Rightarrow> 'p option) \<Rightarrow> string list \<Rightarrow> string \<Rightarrow> frame list \<Rightarrow>
   'p avatar \<Rightarrow> 'p avatar res" where
  "load_images flt u ld idle_paths talk_default frames a =
     (let pix_list = List.map_filter ld (filter (\<lambda>path. path \<noteq> []) idle_paths);
          a1 = a\<lparr>idle_pix_list := pix_list, idle_index := 0\<rparr>;
          a2 = a1\<lparr>talk_pix := (if talk_default = [] then None else ld talk_default)\<rparr>;
          variants = sort_key fst (load_variants ld frames);
          a3 = a2\<lparr>talk_variants := variants\<rparr>
      in and_then (refresh flt a3) (update_idle_timer flt u))"

text \<open>\<open>update_idle_anim_options\<close>.\<close>

definition update_idle_anim_options ::
  "site set \<Rightarrow> real \<Rightarrow> bool \<Rightarrow> real \<Rightarrow> real \<Rightarrow> 'p avatar \<Rightarrow> 'p avatar res" where
  "update_idle_anim_options flt u random_order interval_min interval_max a =
     (let a1 = a\<lparr>idle_random := random_order\<rparr>;
          a2 = a1\<lparr>idle_interval_min := max (5 / 100) interval_min\<rparr>;
          a3 = a2\<lparr>idle_interval_max := max (idle_interval_min a2) interval_max\<rparr>
      in update_idle_timer flt u a3)"

text \<open>
  \<open>_advance_idle_frame\<close>, the slot of the idle timer. \<open>r\<close> is the value of
  \<open>random.randrange(len(self.idle_pix_list))\<close>.
\<close>

definition advance_idle_frame :: "site set \<Rightarrow> nat \<Rightarrow> real \<Rightarrow> 'p avatar \<Rightarrow> 'p avatar res" where
  "advance_idle_frame flt r u a =
     (if idle_pix_list a = [] \<or> is_talking a then update_idle_timer flt u a
      else
        (let a1 = (if idle_random a then a\<lparr>idle_index := r\<rparr>
                   else a\<lparr>idle_index := (idle_index a + 1) mod length (idle_pix_list a)\<rparr>)
         in and_then (refresh flt a1) (update_idle_timer flt u)))"

text \<open>\<open>set_talk_level\<close>.\<close>

definition set_talk_level :: "site set \<Rightarrow> real \<Rightarrow> 'p avatar \<Rightarrow> 'p avatar res" where
  "set_talk_level flt level a =
     (let level' = max 0 level;
          previous_index = fst (resolve_talk_variant None a);
          a1 = a\<lparr>talk_level := level'\<rparr>;
          new_index = fst (resolve_talk_variant None a1)
      in if is_talking a1 \<and> previous_index \<noteq> new_index then refresh flt a1 else Ok a1)"

text \<open>
  \<open>set_talking\<close>. The call of \<open>_resolve_talk_variant\<close> whose result is dropped has no
  effect and is left out.
\<close>

definition set_talking :: "site set \<Rightarrow> real \<Rightarrow> bool \<Rightarrow> 'p avatar \<Rightarrow> 'p avatar res" where
  "set_talking flt u talking a =
     (if is_talking a = talking then Ok a
      else and_then (refresh flt (a\<lparr>is_talking := talking\<rparr>)) (update_idle_timer flt u))"

text \<open>
  \<open>AvatarWindow.__init__\<close>: the fields as the constructor sets them before it calls
  \<open>load_images\<close>, from the values of the keys \<open>idle_anim_random\<close>,
  \<open>idle_interval_min\<close> and \<open>idle_interval_max\<close>; a new \<open>QTimer\<close> is not running.
\<close>

definition avatar_fields :: "bool \<Rightarrow> real \<Rightarrow> real \<Rightarrow> 'p avatar" where
  "avatar_fields random_order interval_min interval_max =
     \<lparr>idle_pix_list = [], idle_index = 0, talk_pix = None, talk_variants = [],
      talk_level = 0, is_talking = False, idle_random = random_order,
      idle_interval_min = interval_min, idle_interval_max = interval_max,
      idle_timer = None, shown = None\<rparr>"





section \<open>widgets/level_meter.py\<close>

text \<open>\<open>LevelMeter.set_level\<close>; the state is the field \<open>level\<close> of the meter.\<close>

definition set_level :: "site set \<Rightarrow> real \<Rightarrow> real \<Rightarrow> real res" where
  "set_level flt val meter =
     (let meter' = max 0 val in if Meter_update \<in> flt then Exn meter' else Ok meter')"

section \<open>ui/panel.py: the panel window and the poll tick\<close>


datatype py_error = Conversion_error | Qt_error



text \<open>
  The settings dictionary \<open>self.values\<close> after \<open>_normalize_values\<close>, with the keys the
  engine reads. \<open>v_talk_image\<close> is the value of \<open>talk_image\<close> as a stripped string,
  \<open>v_talk_th\<close> the value that \<open>_apply_talk_threshold\<close> stores.
\<close>

record settings =
  v_idle_frames :: "string list"
  v_idle_image :: string
  v_talk_image :: string
  v_talk_frames :: "frame list"
  v_idle_anim_random :: bool
  v_idle_interval_min :: real
  v_idle_interval_max :: real
  v_talk_th :: real

text \<open>
  The state of \<open>PanelWindow\<close>: \<open>rms_queue\<close> is the queue of \<open>self.mic\<close>,
  \<open>meter_level\<close> the level of \<open>self.level_meter\<close>, \<open>talk_th\<close> the value of
  \<open>self.values["talk_th"]\<close>, \<open>timer_active\<close> is \<open>self.timer.isActive()\<close> and
  \<open>notices\<close> counts the \<open>QMessageBox.critical\<close> dialogs that \<open>_poll_mic\<close> has
  opened.
\<close>

record 'p panel =
  level :: real
  last_switch :: real
  mic_error_notified :: bool
  rms_queue :: rms_queue
  meter_level :: real
  talk_th :: real
  avatar :: "'p avatar"
  timer_active :: bool
  notices :: nat

text \<open>
  \<open>PanelWindow.__init__\<close> on normalized settings: the fields, the avatar window
  (\<open>AvatarWindow.__init__\<close> ends in \<open>load_images\<close>) and, at the end of
  \<open>_build_ui\<close>, the start of the poll timer and \<open>_sync_idle_anim_options\<close>. An
  exception in the constructor leaves no window: the result is \<open>Inl\<close>. The audio
  stream of \<open>Mic()\<close> is taken to open.
\<close>

definition panel_init ::
  "site set \<Rightarrow> real \<Rightarrow> real \<Rightarrow> real \<Rightarrow> (string \<Rightarrow> 'p option) \<Rightarrow> settings \<Rightarrow> py_error + 'p panel" where
  "panel_init flt now u1 u2 ld v =
     (let idle_paths = (if v_idle_frames v \<noteq> [] then v_idle_frames v else [v_idle_image v])
      in case load_images flt u1 ld idle_paths (v_talk_image v) (v_talk_frames v)
                (avatar_fields (v_idle_anim_random v) (v_idle_interval_min v)
                   (v_idle_interval_max v)) of
           Exn a \<Rightarrow> Inl Qt_error
         | Ok a \<Rightarrow>
             (case update_idle_anim_options flt u2 (v_idle_anim_random v)
                     (v_idle_interval_min v) (v_idle_interval_max v) a of
                Exn a' \<Rightarrow> Inl Qt_error
              | Ok a' \<Rightarrow>
                  Inr \<lparr>level = 0, last_switch = now, mic_error_notified = False,
                       rms_queue = [], meter_level = 0, talk_th = v_talk_th v,
                       avatar = a', timer_active = True, notices = 0\<rparr>))"


text \<open>
  The body of the \<open>try\<close> block of \<open>_poll_mic\<close>. An exception leaves the block with
  the state as it is at the call that raised.
\<close>

definition poll_try :: "site set \<Rightarrow> real \<Rightarrow> real \<Rightarrow> 'p panel \<Rightarrow> 'p panel res" where
  "poll_try flt now u p =
     (let (lv, q) = read (rms_queue p);
          p1 = p\<lparr>rms_queue := q, level := level p * (7 / 10) + lv * (3 / 10)\<rparr>
      in case set_level flt (level p1) (meter_level p1) of
           Exn m \<Rightarrow> Exn (p1\<lparr>meter_level := m\<rparr>)
         | Ok m \<Rightarrow>
             (let p2 = p1\<lparr>meter_level := m\<rparr>
              in case set_talk_level flt (level p2) (avatar p2) of
                   Exn a \<Rightarrow> Exn (p2\<lparr>avatar := a\<rparr>)
                 | Ok a \<Rightarrow>
                     (let p3 = p2\<lparr>avatar := a\<rparr>;
                          talking = is_talking (avatar p3);
                          release_th = talk_th p3 * (7 / 10)
                      in if talking then
                           (if level p3 < release_th \<and> now - last_switch p3 > 5 / 100 then
                              (case set_talking flt u False (avatar p3) of
                                 Exn a' \<Rightarrow> Exn (p3\<lparr>avatar := a'\<rparr>)
                               | Ok a' \<Rightarrow> Ok (p3\<lparr>avatar := a', last_switch := now\<rparr>))
                            else Ok p3)
                         else
                           (if level p3 > talk_th p3 \<and> now - last_switch p3 > 5 / 100 then
                              (case set_talking flt u True (avatar p3) of
                                 Exn a' \<Rightarrow> Exn (p3\<lparr>avatar := a'\<rparr>)
                               | Ok a' \<Rightarrow> Ok (p3\<lparr>avatar := a', last_switch := now\<rparr>))
                            else Ok p3))))"

text \<open>The \<open>except\<close> block of \<open>_poll_mic\<close>.\<close>

definition poll_except :: "'p panel \<Rightarrow> 'p panel" where
  "poll_except p =
     (let p1 = (if timer_active p then p\<lparr>timer_active := False\<rparr> else p)
      in if \<not> mic_error_notified p1
         then p1\<lparr>mic_error_notified := True, notices := notices p1 + 1\<rparr>
         else p1)"

text \<open>\<open>_poll_mic\<close>.\<close>

definition poll_mic :: "site set \<Rightarrow> real \<Rightarrow> real \<Rightarrow> 'p panel \<Rightarrow> 'p panel" where
  "poll_mic flt now u p =
     (case poll_try flt now u p of Ok p' \<Rightarrow> p' | Exn p' \<Rightarrow> poll_except p')"

section \<open>The event loop\<close>

text \<open>
  What happens to a panel, one event at a time: the audio callback publishes a buffer,
  the poll timer fires (only a running timer fires), the idle timer of the avatar fires
  (likewise). An exception that leaves the slot of the idle timer is reported by the
  exception hook of the application and the avatar stays as the slot left it.
\<close>

datatype event =
    Audio "real list option"
  | Tick "site set" real real
  | Idle_timeout "site set" nat real

fun step :: "event \<Rightarrow> 'p panel \<Rightarrow> 'p panel" where
  "step (Audio input_data) p = p\<lparr>rms_queue := stream_callback input_data (rms_queue p)\<rparr>"
| "step (Tick flt now u) p = (if timer_active p then poll_mic flt now u p else p)"
| "step (Idle_timeout flt r u) p =
     (if idle_timer (avatar p) = None then p
      else p\<lparr>avatar := state_of (advance_idle_frame flt r u (avatar p))\<rparr>)"

fun run :: "'p panel \<Rightarrow> event list \<Rightarrow> 'p panel" where
  "run p [] = p"
| "run p (e # es) = run (step e p) es"

text \<open>
  The times of the poll ticks at which the talk state changed, in the order of the
  events.
\<close>

fun switch_time :: "event \<Rightarrow> 'p panel \<Rightarrow> real list" where
  "switch_time (Tick flt now u) p =
     (if is_talking (avatar (step (Tick flt now u) p)) \<noteq> is_talking (avatar p)
      then [now] else [])"
| "switch_time e p = []"

fun switches :: "'p panel \<Rightarrow> event list \<Rightarrow> real list" where
  "switches p [] = []"
| "switches p (e # es) = switch_time e p @ switches (step e p) es"



section \<open>Example inputs\<close>

text \<open>
  Concrete inputs for the theorems below. A pixmap is named by its path, so the loader is
  \<open>Some\<close>.
\<close>

definition ex_frames :: "frame list" where
  "ex_frames = [Entry ''b'' (Some (5 / 100)), Entry ''a'' (Some (2 / 100)),
     Entry ''a2'' (Some (2 / 100))]"


definition ex_avatar :: "string avatar" where
  "ex_avatar = state_of (load_images {} 0 Some [] ''t'' ex_frames
     (avatar_fields False (1 / 5) (3 / 5)))"

definition ex_idle :: "string avatar" where
  "ex_idle = state_of (load_images {} (1 / 2) Some [''i0'', ''i1'', ''i2''] ''t'' ex_frames
     (avatar_fields False (1 / 5) (3 / 5)))"



text \<open>
  A panel on settings with three idle frames and a talk threshold of 0.2, built at time
  0, and a run of it: a loud buffer, four poll ticks one second apart, another loud
  buffer and two ticks 0.02 s and 0.06 s after the fourth.
\<close>

definition ex_settings :: settings where
  "ex_settings = \<lparr>v_idle_frames = [''i0'', ''i1'', ''i2''], v_idle_image = ''i0'',
     v_talk_image = ''t'', v_talk_frames = ex_frames, v_idle_anim_random = False,
     v_idle_interval_min = 1 / 5, v_idle_interval_max = 3 / 5, v_talk_th = 1 / 5\<rparr>"

definition ex_start :: "string panel" where
  "ex_start = projr (panel_init {} 0 (1 / 2) (1 / 2) Some ex_settings)"

definition ex_events :: "event list" where
  "ex_events = [Audio (Some [1]), Tick {} 1 (1 / 2), Tick {} 2 (1 / 2), Tick {} 3 (1 / 2),
     Tick {} 4 (1 / 2), Audio (Some [1]), Tick {} (402 / 100) (1 / 2),
     Tick {} (406 / 100) (1 / 2)]"

definition ex_state :: "nat \<Rightarrow> string panel" where
  "ex_state n = run ex_start (take n ex_events)"


section \<open>Properties of the sampler\<close>

lemma drain_eq: "drain v q = (if q = [] then v else last q, [])"
  by (induction q arbitrary: v) auto

text \<open>
  Claim C5. For every state of the queue, \<open>Mic.read\<close> returns the value that was
  enqueued last and drops the ones before it, returns 0.0 when nothing is pending, and
  leaves the queue empty. With \<open>pending @ [newest]\<close> as the queue, \<open>newest\<close> is what
  the last \<open>put\<close> added.
\<close>

theorem read_returns_latest:
  "read [] = (0, [])
   \<and> read (pending @ [newest]) = (newest, [])
   \<and> snd (read q) = []"
  by (simp add: read_def drain_eq)


section \<open>Properties of the variant selector\<close>

lemma resolve_loop_append:
  "resolve_loop l (xs @ ys) b = resolve_loop l ys (resolve_loop l xs b)"
  by (induction l xs b rule: resolve_loop.induct) auto

lemma resolve_loop_none:
  "\<forall>v\<in>set vs. l < fst v \<Longrightarrow> resolve_loop l (enumerate n vs) b = b"
  by (induction vs arbitrary: n b) (auto simp: case_prod_beta)

lemma resolve_loop_last:
  assumes "i < length vs" and "fst (vs ! i) \<le> l"
    and "\<forall>j. i < j \<and> j < length vs \<longrightarrow> l < fst (vs ! j)"
  shows "resolve_loop l (enumerate n vs) b = (int (n + i), Some (snd (vs ! i)))"
proof -
  have split: "vs = take i vs @ vs ! i # drop (Suc i) vs"
    using assms(1) by (simp add: id_take_nth_drop)
  have tl: "\<forall>v\<in>set (drop (Suc i) vs). l < fst v"
  proof
    fix v assume "v \<in> set (drop (Suc i) vs)"
    then obtain k where k: "k < length (drop (Suc i) vs)" "v = drop (Suc i) vs ! k"
      by (auto simp: in_set_conv_nth)
    then have "v = vs ! (Suc i + k)" "Suc i + k < length vs" by auto
    with assms(3) show "l < fst v" by auto
  qed
  have "enumerate n vs = enumerate n (take i vs) @ (n + i, vs ! i) # enumerate (Suc (n + i)) (drop (Suc i) vs)"
    using assms(1) by (subst split) (simp add: enumerate_append_eq min_def)
  then show ?thesis
    using assms(2) tl
    by (cases "vs ! i") (simp add: resolve_loop_append resolve_loop_none)
qed

lemma last_match_exists:
  "\<exists>v\<in>set vs. fst v \<le> (l::real) \<Longrightarrow>
   \<exists>i<length vs. fst (vs ! i) \<le> l \<and> (\<forall>j. i < j \<and> j < length vs \<longrightarrow> l < fst (vs ! j))"
proof (induction vs rule: rev_induct)
  case Nil
  then show ?case by simp
next
  case (snoc x xs)
  show ?case
  proof (cases "fst x \<le> l")
    case True
    then have "length xs < length (xs @ [x]) \<and> fst ((xs @ [x]) ! length xs) \<le> l
        \<and> (\<forall>j. length xs < j \<and> j < length (xs @ [x]) \<longrightarrow> l < fst ((xs @ [x]) ! j))"
      by simp
    then show ?thesis by blast
  next
    case False
    with snoc.prems have "\<exists>v\<in>set xs. fst v \<le> l" by auto
    from snoc.IH[OF this] obtain i where i: "i < length xs" "fst (xs ! i) \<le> l"
      "\<forall>j. i < j \<and> j < length xs \<longrightarrow> l < fst (xs ! j)" by blast
    have "\<forall>j. i < j \<and> j < length (xs @ [x]) \<longrightarrow> l < fst ((xs @ [x]) ! j)"
      using i(3) False by (auto simp: nth_append)
    with i(1,2) show ?thesis
      by (intro exI[of _ i]) (simp add: nth_append)
  qed
qed

lemma resolve_loop_mono:
  "l1 \<le> l2 \<Longrightarrow> fst b1 \<le> fst b2 \<Longrightarrow> fst b1 \<le> int n \<Longrightarrow>
   fst (resolve_loop l1 (enumerate n vs) b1) \<le> fst (resolve_loop l2 (enumerate n vs) b2)"
proof (induction vs arbitrary: n b1 b2)
  case Nil
  then show ?case by simp
next
  case (Cons v vs)
  obtain th pm where v: "v = (th, pm)" by (cases v)
  let ?b1 = "if l1 \<ge> th then (int n, Some pm) else b1"
  let ?b2 = "if l2 \<ge> th then (int n, Some pm) else b2"
  have "fst ?b1 \<le> fst ?b2" using Cons.prems by auto
  moreover have "fst ?b1 \<le> int (Suc n)" using Cons.prems by auto
  ultimately have "fst (resolve_loop l1 (enumerate (Suc n) vs) ?b1)
      \<le> fst (resolve_loop l2 (enumerate (Suc n) vs) ?b2)"
    using Cons.IH[OF Cons.prems(1)] by blast
  then show ?case by (simp add: v)
qed


lemma resolve_loop_range:
  "fst (resolve_loop l (enumerate n vs) b) = fst b
   \<or> (int n \<le> fst (resolve_loop l (enumerate n vs) b)
      \<and> fst (resolve_loop l (enumerate n vs) b) < int (n + length vs))"
proof (induction vs arbitrary: n b)
  case Nil
  then show ?case by simp
next
  case (Cons v vs)
  obtain th pm where v: "v = (th, pm)" by (cases v)
  let ?b = "if l \<ge> th then (int n, Some pm) else b"
  from Cons.IH[of "Suc n" ?b] show ?case
    by (auto simp: v)
qed

lemma ex_avatar_variants:
  "talk_variants ex_avatar = [(2 / 100, ''a''), (2 / 100, ''a2''), (5 / 100, ''b'')]"
  by (simp add: ex_avatar_def load_images_def Let_def and_then_def refresh_def
      update_idle_timer_def ex_frames_def avatar_fields_def)

text \<open>
  Claim C2. \<open>load_images\<close> keeps the variants sorted by threshold with a stable sort.
  On such a list and for a level that is not negative, the selector returns the default
  talk image with index -1 when every threshold is above the level (the empty list
  included), and otherwise the last entry whose threshold is at most the level: no later
  entry qualifies, every entry that qualifies is at or before it and has a threshold that
  is not larger. Among entries whose threshold equals the level the later one is
  therefore the one selected. The selection that \<open>refresh\<close> makes from the stored
  \<open>talk_level\<close> is the same.
\<close>

theorem resolve_talk_variant_last_match:
  fixes a :: "'p avatar"
  assumes "0 \<le> l" and "talk_variants a = sort_key fst raw"
  shows "sorted (map fst (talk_variants a))
    \<and> (\<forall>k. filter (\<lambda>v. fst v = k) (talk_variants a) = filter (\<lambda>v. fst v = k) raw)
    \<and> ((\<forall>v\<in>set (talk_variants a). l < fst v) \<longrightarrow>
         resolve_talk_variant (Some l) a = (- 1, talk_pix a))
    \<and> ((\<exists>v\<in>set (talk_variants a). fst v \<le> l) \<longrightarrow>
         (\<exists>i<length (talk_variants a).
            resolve_talk_variant (Some l) a = (int i, Some (snd (talk_variants a ! i)))
            \<and> fst (talk_variants a ! i) \<le> l
            \<and> (\<forall>j. i < j \<and> j < length (talk_variants a) \<longrightarrow> l < fst (talk_variants a ! j))
            \<and> (\<forall>j<length (talk_variants a). fst (talk_variants a ! j) \<le> l \<longrightarrow>
                  j \<le> i \<and> fst (talk_variants a ! j) \<le> fst (talk_variants a ! i))))
    \<and> resolve_talk_variant None (a\<lparr>talk_level := l\<rparr>) = resolve_talk_variant (Some l) a
    \<and> talk_variants (state_of (load_images flt u ld idle_paths talk_default frames a0))
        = sort_key fst (load_variants ld frames)"
proof -
  let ?vs = "talk_variants a"
  have lv: "max 0 l = l" using assms(1) by simp
  have sel: "resolve_talk_variant (Some l) a = resolve_loop l (enumerate 0 ?vs) (- 1, talk_pix a)"
    by (simp add: resolve_talk_variant_def lv)
  have srt: "sorted (map fst ?vs)"
    by (simp add: assms(2))
  have stable: "\<forall>k. filter (\<lambda>v. fst v = k) ?vs = filter (\<lambda>v. fst v = k) raw"
    by (simp add: assms(2) sort_key_stable)
  have none: "(\<forall>v\<in>set ?vs. l < fst v) \<longrightarrow> resolve_talk_variant (Some l) a = (- 1, talk_pix a)"
    by (simp add: sel resolve_loop_none)
  have some: "(\<exists>v\<in>set ?vs. fst v \<le> l) \<longrightarrow>
         (\<exists>i<length ?vs.
            resolve_talk_variant (Some l) a = (int i, Some (snd (?vs ! i)))
            \<and> fst (?vs ! i) \<le> l
            \<and> (\<forall>j. i < j \<and> j < length ?vs \<longrightarrow> l < fst (?vs ! j))
            \<and> (\<forall>j<length ?vs. fst (?vs ! j) \<le> l \<longrightarrow> j \<le> i \<and> fst (?vs ! j) \<le> fst (?vs ! i)))"
  proof
    assume "\<exists>v\<in>set ?vs. fst v \<le> l"
    from last_match_exists[OF this] obtain i where i: "i < length ?vs" "fst (?vs ! i) \<le> l"
      "\<forall>j. i < j \<and> j < length ?vs \<longrightarrow> l < fst (?vs ! j)" by blast
    have r: "resolve_talk_variant (Some l) a = (int i, Some (snd (?vs ! i)))"
      using resolve_loop_last[OF i, of 0] by (simp add: sel)
    have hi: "\<forall>j<length ?vs. fst (?vs ! j) \<le> l \<longrightarrow> j \<le> i \<and> fst (?vs ! j) \<le> fst (?vs ! i)"
    proof (intro allI impI)
      fix j assume j: "j < length ?vs" "fst (?vs ! j) \<le> l"
      have ji: "j \<le> i"
      proof (rule ccontr)
        assume "\<not> j \<le> i"
        with i(3) j(1) have "l < fst (?vs ! j)" by simp
        with j(2) show False by simp
      qed
      have "map fst ?vs ! j \<le> map fst ?vs ! i"
        using srt ji i(1) by (intro sorted_nth_mono) simp_all
      then show "j \<le> i \<and> fst (?vs ! j) \<le> fst (?vs ! i)"
        using ji i(1) j(1) by simp
    qed
    from i(1) r i(2) i(3) hi show "\<exists>i<length ?vs.
            resolve_talk_variant (Some l) a = (int i, Some (snd (?vs ! i)))
            \<and> fst (?vs ! i) \<le> l
            \<and> (\<forall>j. i < j \<and> j < length ?vs \<longrightarrow> l < fst (?vs ! j))
            \<and> (\<forall>j<length ?vs. fst (?vs ! j) \<le> l \<longrightarrow> j \<le> i \<and> fst (?vs ! j) \<le> fst (?vs ! i))"
      by blast
  qed
  have ld: "talk_variants (state_of (load_images flt u ld idle_paths talk_default frames a0))
        = sort_key fst (load_variants ld frames)"
    by (simp add: load_images_def Let_def and_then_def refresh_def update_idle_timer_def)
  have cur: "resolve_talk_variant None (a\<lparr>talk_level := l\<rparr>) = resolve_talk_variant (Some l) a"
    by (simp add: resolve_talk_variant_def lv)
  from srt stable none some cur ld show ?thesis by blast
qed

theorem resolve_talk_variant_last_match_witness:
  "(0::real) \<le> 2 / 100
   \<and> talk_variants ex_avatar = sort_key fst (load_variants Some ex_frames)
   \<and> (\<exists>v\<in>set (talk_variants ex_avatar). fst v \<le> 2 / 100)
   \<and> (\<exists>i<length (talk_variants ex_avatar).
        resolve_talk_variant (Some (2 / 100)) ex_avatar
          = (int i, Some (snd (talk_variants ex_avatar ! i)))
        \<and> fst (talk_variants ex_avatar ! i) \<le> 2 / 100)
   \<and> resolve_talk_variant (Some (2 / 100)) ex_avatar = (1, Some ''a2'')
   \<and> (0::real) \<le> 1 / 100
   \<and> \<not> (\<exists>v\<in>set (talk_variants ex_avatar). fst v \<le> 1 / 100)
   \<and> resolve_talk_variant (Some (1 / 100)) ex_avatar = (- 1, talk_pix ex_avatar)
   \<and> talk_pix ex_avatar = Some ''t''"
proof -
  have h1: "(0::real) \<le> 2 / 100" by simp
  have h2: "talk_variants ex_avatar = sort_key fst (load_variants Some ex_frames)"
    by (simp add: ex_avatar_variants ex_frames_def)
  have h3: "\<exists>v\<in>set (talk_variants ex_avatar). fst v \<le> 2 / 100"
    by (simp add: ex_avatar_variants)
  have r: "resolve_talk_variant (Some (2 / 100)) ex_avatar = (1, Some ''a2'')"
    by (simp add: resolve_talk_variant_def ex_avatar_variants enumerate_eq_zip upt_rec)
  from resolve_talk_variant_last_match[OF h1 h2] h3
  have e: "\<exists>i<length (talk_variants ex_avatar).
        resolve_talk_variant (Some (2 / 100)) ex_avatar
          = (int i, Some (snd (talk_variants ex_avatar ! i)))
        \<and> fst (talk_variants ex_avatar ! i) \<le> 2 / 100"
    by blast
  have g1: "(0::real) \<le> 1 / 100" by simp
  have g3: "\<forall>v\<in>set (talk_variants ex_avatar). 1 / 100 < fst v"
    by (simp add: ex_avatar_variants)
  from resolve_talk_variant_last_match[OF g1 h2] g3
  have n: "resolve_talk_variant (Some (1 / 100)) ex_avatar = (- 1, talk_pix ex_avatar)"
    by blast
  have tp: "talk_pix ex_avatar = Some ''t''"
    by (simp add: ex_avatar_def load_images_def Let_def and_then_def refresh_def
      update_idle_timer_def ex_frames_def avatar_fields_def)
  have g4: "\<not> (\<exists>v\<in>set (talk_variants ex_avatar). fst v \<le> 1 / 100)"
    by (simp add: ex_avatar_variants)
  from h1 h2 h3 e r g1 g4 n tp show ?thesis by blast
qed

text \<open>
  Claim C7. For levels \<open>0 \<le> l1 \<le> l2\<close> the index selected at \<open>l1\<close> is at most the
  index selected at \<open>l2\<close> (the default counts as -1), and on a list sorted by threshold
  the threshold selected at \<open>l1\<close> is at most the one selected at \<open>l2\<close>.
\<close>

theorem variant_selection_monotonic:
  fixes a :: "'p avatar"
  assumes "0 \<le> l1" and "l1 \<le> l2"
  shows "fst (resolve_talk_variant (Some l1) a) \<le> fst (resolve_talk_variant (Some l2) a)
    \<and> fst (resolve_talk_variant (Some l2) a) < int (length (talk_variants a))
    \<and> (sorted (map fst (talk_variants a)) \<and> 0 \<le> fst (resolve_talk_variant (Some l1) a) \<longrightarrow>
         fst (talk_variants a ! nat (fst (resolve_talk_variant (Some l1) a)))
         \<le> fst (talk_variants a ! nat (fst (resolve_talk_variant (Some l2) a))))"
proof -
  let ?vs = "talk_variants a"
  let ?i1 = "fst (resolve_talk_variant (Some l1) a)"
  let ?i2 = "fst (resolve_talk_variant (Some l2) a)"
  have l2: "0 \<le> l2" using assms by simp
  have s1: "resolve_talk_variant (Some l1) a = resolve_loop l1 (enumerate 0 ?vs) (- 1, talk_pix a)"
    using assms(1) by (simp add: resolve_talk_variant_def)
  have s2: "resolve_talk_variant (Some l2) a = resolve_loop l2 (enumerate 0 ?vs) (- 1, talk_pix a)"
    using l2 by (simp add: resolve_talk_variant_def)
  have mono: "?i1 \<le> ?i2"
    unfolding s1 s2 using assms(2) by (intro resolve_loop_mono) simp_all
  have rng: "?i2 < int (length ?vs)"
    unfolding s2 using resolve_loop_range[of l2 0 ?vs "(- 1, talk_pix a)"] by auto
  have tier: "sorted (map fst ?vs) \<and> 0 \<le> ?i1 \<longrightarrow>
         fst (?vs ! nat ?i1) \<le> fst (?vs ! nat ?i2)"
  proof
    assume h: "sorted (map fst ?vs) \<and> 0 \<le> ?i1"
    then have "nat ?i1 \<le> nat ?i2" "nat ?i2 < length ?vs"
      using mono rng by auto
    then have "map fst ?vs ! nat ?i1 \<le> map fst ?vs ! nat ?i2"
      using h by (intro sorted_nth_mono) simp_all
    then show "fst (?vs ! nat ?i1) \<le> fst (?vs ! nat ?i2)"
      using \<open>nat ?i1 \<le> nat ?i2\<close> \<open>nat ?i2 < length ?vs\<close> by simp
  qed
  from mono rng tier show ?thesis by blast
qed


theorem variant_selection_monotonic_witness:
  "(0::real) \<le> 2 / 100 \<and> (2 / 100 :: real) \<le> 5 / 100
   \<and> fst (resolve_talk_variant (Some (2 / 100)) ex_avatar)
       \<le> fst (resolve_talk_variant (Some (5 / 100)) ex_avatar)
   \<and> sorted (map fst (talk_variants ex_avatar))
   \<and> 0 \<le> fst (resolve_talk_variant (Some (2 / 100)) ex_avatar)
   \<and> fst (talk_variants ex_avatar ! nat (fst (resolve_talk_variant (Some (2 / 100)) ex_avatar)))
       \<le> fst (talk_variants ex_avatar ! nat (fst (resolve_talk_variant (Some (5 / 100)) ex_avatar)))
   \<and> resolve_talk_variant (Some (2 / 100)) ex_avatar = (1, Some ''a2'')
   \<and> resolve_talk_variant (Some (5 / 100)) ex_avatar = (2, Some ''b'')"
proof -
  have h1: "(0::real) \<le> 2 / 100" by simp
  have h2: "(2 / 100 :: real) \<le> 5 / 100" by simp
  have r1: "resolve_talk_variant (Some (2 / 100)) ex_avatar = (1, Some ''a2'')"
    by (simp add: resolve_talk_variant_def ex_avatar_variants enumerate_eq_zip upt_rec)
  have r2: "resolve_talk_variant (Some (5 / 100)) ex_avatar = (2, Some ''b'')"
    by (simp add: resolve_talk_variant_def ex_avatar_variants enumerate_eq_zip upt_rec)
  have s: "sorted (map fst (talk_variants ex_avatar))"
    by (simp add: ex_avatar_variants)
  have p: "0 \<le> fst (resolve_talk_variant (Some (2 / 100)) ex_avatar)"
    by (subst r1) simp
  from variant_selection_monotonic[OF h1 h2, of ex_avatar] h1 h2 r1 r2 s p
  show ?thesis by blast
qed

section \<open>Properties of the avatar window\<close>














lemma ex_idle_eq:
  "ex_idle = \<lparr>idle_pix_list = [''i0'', ''i1'', ''i2''], idle_index = 0, talk_pix = Some ''t'',
      talk_variants = [(2 / 100, ''a''), (2 / 100, ''a2''), (5 / 100, ''b'')],
      talk_level = 0, is_talking = False, idle_random = False,
      idle_interval_min = 1 / 5, idle_interval_max = 3 / 5,
      idle_timer = Some 400, shown = Some ''i0''\<rparr>"
  by (simp add: ex_idle_def load_images_def Let_def and_then_def refresh_def
      update_idle_timer_def ex_frames_def avatar_fields_def List.map_filter_simps
      current_idle_pix_def uniform_def py_int_def)


lemma set_talking_state: "is_talking (state_of (set_talking flt u b a)) = b"
  by (simp add: set_talking_def and_then_def refresh_def update_idle_timer_def)



text \<open>
  Claim C10. \<open>set_talking b\<close> on an avatar whose talk state is already \<open>b\<close> returns
  the avatar unchanged, whichever Qt calls would raise and whatever the random draw, so
  neither of them is reached; and a second call with the same argument changes nothing
  after the first.
\<close>

theorem set_talking_same_state_noop:
  "(is_talking a = b \<longrightarrow> set_talking flt u b a = Ok a)
   \<and> set_talking flt' u' b (state_of (set_talking flt u b a))
       = Ok (state_of (set_talking flt u b a))"
proof -
  have "is_talking (state_of (set_talking flt u b a)) = b"
    by (rule set_talking_state)
  then show ?thesis by (simp add: set_talking_def)
qed

theorem set_talking_same_state_noop_witness:
  "is_talking ex_idle = False
   \<and> set_talking {Label_update, Idle_timer_call} (1 / 2) False ex_idle = Ok ex_idle
   \<and> idle_timer ex_idle = Some 400"
proof -
  have h: "is_talking ex_idle = False" by (simp add: ex_idle_eq)
  have t: "idle_timer ex_idle = Some 400" by (simp add: ex_idle_eq)
  from set_talking_same_state_noop[of ex_idle False "{Label_update, Idle_timer_call}" "1 / 2"] h t
  show ?thesis by blast
qed



section \<open>Properties of the poll tick\<close>

lemma read_snd: "snd (read q) = []"
  by (simp add: read_def drain_eq)


lemma set_talk_level_keeps:
  "is_talking (state_of (set_talk_level flt lv a)) = is_talking a"
  "idle_pix_list (state_of (set_talk_level flt lv a)) = idle_pix_list a"
  "idle_timer (state_of (set_talk_level flt lv a)) = idle_timer a"
  "idle_interval_min (state_of (set_talk_level flt lv a)) = idle_interval_min a"
  "idle_interval_max (state_of (set_talk_level flt lv a)) = idle_interval_max a"
  by (simp_all add: set_talk_level_def Let_def refresh_def)


lemma poll_try_panel_fields:
  "level (state_of (poll_try flt now u p)) = level p * (7 / 10) + fst (read (rms_queue p)) * (3 / 10)"
  "rms_queue (state_of (poll_try flt now u p)) = []"
  "mic_error_notified (state_of (poll_try flt now u p)) = mic_error_notified p"
  "timer_active (state_of (poll_try flt now u p)) = timer_active p"
  "notices (state_of (poll_try flt now u p)) = notices p"
  "talk_th (state_of (poll_try flt now u p)) = talk_th p"
  by (simp_all add: poll_try_def Let_def case_prod_beta read_snd split: res.split)


lemma set_talk_level_talking:
  "set_talk_level flt lv a = Ok a' \<Longrightarrow> is_talking a' = is_talking a"
  "set_talk_level flt lv a = Exn a' \<Longrightarrow> is_talking a' = is_talking a"
  using set_talk_level_keeps(1)[of flt lv a] by simp_all

lemma set_talking_talking:
  "set_talking flt u b a = Ok a' \<Longrightarrow> is_talking a' = b"
  "set_talking flt u b a = Exn a' \<Longrightarrow> is_talking a' = b"
  using set_talking_state[of flt u b a] by simp_all

lemma poll_try_talking:
  "is_talking (avatar (state_of (poll_try flt now u p))) =
     (if raised (set_level flt (level p * (7 / 10) + fst (read (rms_queue p)) * (3 / 10)) (meter_level p))
         \<or> raised (set_talk_level flt (level p * (7 / 10) + fst (read (rms_queue p)) * (3 / 10)) (avatar p))
      then is_talking (avatar p)
      else if is_talking (avatar p)
        then \<not> (level p * (7 / 10) + fst (read (rms_queue p)) * (3 / 10) < talk_th p * (7 / 10)
                \<and> now - last_switch p > 5 / 100)
        else (level p * (7 / 10) + fst (read (rms_queue p)) * (3 / 10) > talk_th p
                \<and> now - last_switch p > 5 / 100))"
  by (simp add: poll_try_def Let_def case_prod_beta read_snd set_talk_level_talking
      set_talking_talking split: res.split)

lemma poll_try_last_switch:
  "last_switch (state_of (poll_try flt now u p)) =
     (if is_talking (avatar (state_of (poll_try flt now u p))) \<noteq> is_talking (avatar p)
         \<and> \<not> raised (poll_try flt now u p)
      then now else last_switch p)"
  by (simp add: poll_try_def Let_def case_prod_beta read_snd set_talk_level_talking
      set_talking_talking split: res.split)





lemma poll_mic_state:
  "avatar (poll_mic flt now u p) = avatar (state_of (poll_try flt now u p))"
  "level (poll_mic flt now u p) = level (state_of (poll_try flt now u p))"
  "last_switch (poll_mic flt now u p) = last_switch (state_of (poll_try flt now u p))"
  "rms_queue (poll_mic flt now u p) = rms_queue (state_of (poll_try flt now u p))"
  "talk_th (poll_mic flt now u p) = talk_th (state_of (poll_try flt now u p))"
  "meter_level (poll_mic flt now u p) = meter_level (state_of (poll_try flt now u p))"
  by (simp_all add: poll_mic_def poll_except_def Let_def split: res.split)

lemma poll_mic_handler:
  "timer_active (poll_mic flt now u p) = (timer_active p \<and> \<not> raised (poll_try flt now u p))"
  "mic_error_notified (poll_mic flt now u p)
     = (mic_error_notified p \<or> raised (poll_try flt now u p))"
  "notices (poll_mic flt now u p)
     = notices p + (if raised (poll_try flt now u p) \<and> \<not> mic_error_notified p then 1 else 0)"
proof -
  have f: "timer_active (state_of (poll_try flt now u p)) = timer_active p"
    "mic_error_notified (state_of (poll_try flt now u p)) = mic_error_notified p"
    "notices (state_of (poll_try flt now u p)) = notices p"
    by (rule poll_try_panel_fields)+
  show "timer_active (poll_mic flt now u p) = (timer_active p \<and> \<not> raised (poll_try flt now u p))"
    using f by (cases "poll_try flt now u p") (simp_all add: poll_mic_def poll_except_def)
  show "mic_error_notified (poll_mic flt now u p)
     = (mic_error_notified p \<or> raised (poll_try flt now u p))"
    using f by (cases "poll_try flt now u p") (simp_all add: poll_mic_def poll_except_def)
  show "notices (poll_mic flt now u p)
     = notices p + (if raised (poll_try flt now u p) \<and> \<not> mic_error_notified p then 1 else 0)"
    using f by (cases "poll_try flt now u p") (simp_all add: poll_mic_def poll_except_def)
qed

lemma step_inactive:
  "\<not> timer_active p \<Longrightarrow> \<not> timer_active (step e p) \<and> switch_time e p = []"
  by (cases e) simp_all

lemma step_no_switch:
  "switch_time e p = [] \<Longrightarrow> last_switch (step e p) = last_switch p"
proof (cases e)
  case (Tick flt now u)
  assume "switch_time e p = []"
  then show ?thesis
    by (simp add: Tick poll_mic_state poll_try_last_switch split: if_splits)
qed simp_all

lemma step_switch:
  assumes "switch_time e p \<noteq> []"
  shows "\<exists>now. switch_time e p = [now] \<and> 5 / 100 < now - last_switch p
     \<and> (timer_active (step e p) \<longrightarrow> last_switch (step e p) = now)"
proof (cases e)
  case (Tick flt now u)
  from assms have act: "timer_active p"
    and ch: "is_talking (avatar (poll_mic flt now u p)) \<noteq> is_talking (avatar p)"
    by (auto simp: Tick split: if_splits)
  have st: "switch_time e p = [now]" using act ch by (simp add: Tick)
  from ch have gap: "5 / 100 < now - last_switch p"
    by (simp add: poll_mic_state poll_try_talking split: if_splits)
  have "timer_active (step e p) \<longrightarrow> last_switch (step e p) = now"
    using act ch
    by (simp add: Tick poll_mic_state poll_mic_handler poll_try_last_switch)
  with st gap show ?thesis by blast
next
  case (Audio d)
  with assms show ?thesis by simp
next
  case (Idle_timeout flt r u)
  with assms show ?thesis by simp
qed

lemma switches_inactive: "\<not> timer_active p \<Longrightarrow> switches p es = []"
proof (induction es arbitrary: p)
  case Nil
  then show ?case by simp
next
  case (Cons e es)
  from step_inactive[OF Cons.prems] Cons.IH show ?case by simp
qed

lemma switches_spaced:
  "successively (\<lambda>t t'. 5 / 100 < t' - t) (last_switch p # switches p es)"
proof (induction es arbitrary: p)
  case Nil
  then show ?case by simp
next
  case (Cons e es)
  show ?case
  proof (cases "switch_time e p = []")
    case True
    with Cons.IH[of "step e p"] step_no_switch[OF True] show ?thesis by simp
  next
    case False
    from step_switch[OF False] obtain now where n: "switch_time e p = [now]"
      "5 / 100 < now - last_switch p"
      "timer_active (step e p) \<longrightarrow> last_switch (step e p) = now"
      by blast
    have "successively (\<lambda>t t'. 5 / 100 < t' - t) (now # switches (step e p) es)"
    proof (cases "timer_active (step e p)")
      case True
      with n(3) Cons.IH[of "step e p"] show ?thesis by simp
    next
      case False
      then show ?thesis by (simp add: switches_inactive)
    qed
    with n(1,2) show ?thesis by simp
  qed
qed


lemma ex_start_init: "panel_init {} 0 (1 / 2) (1 / 2) Some ex_settings = Inr ex_start"
  by (simp add: ex_start_def panel_init_def ex_settings_def load_images_def Let_def and_then_def refresh_def
      update_idle_timer_def ex_frames_def avatar_fields_def List.map_filter_simps
      current_idle_pix_def uniform_def py_int_def update_idle_anim_options_def)

lemma ex_start_eq: "ex_start = \<lparr>level = 0, last_switch = 0, mic_error_notified = False,
     rms_queue = [], meter_level = 0, talk_th = 1 / 5, avatar = ex_idle,
     timer_active = True, notices = 0\<rparr>"
  by (simp add: ex_idle_eq ex_start_def panel_init_def ex_settings_def load_images_def Let_def and_then_def refresh_def
      update_idle_timer_def ex_frames_def avatar_fields_def List.map_filter_simps
      current_idle_pix_def uniform_def py_int_def update_idle_anim_options_def)

lemma rms_one: "root_mean_square [1] = 1000001 / 1000000"
  by (simp add: root_mean_square_def)

lemmas tick_eval = poll_mic_def poll_try_def poll_except_def set_level_def set_talk_level_def
  set_talking_def refresh_def update_idle_timer_def and_then_def Let_def read_def
  resolve_talk_variant_def enumerate_eq_zip upt_rec current_idle_pix_def uniform_def
  py_int_def stream_callback_def rms_one

lemma load_images_talking:
  "is_talking (state_of (load_images flt u ld ps d fs a)) = is_talking a"
  by (simp add: load_images_def Let_def and_then_def refresh_def update_idle_timer_def)

lemma update_idle_anim_options_talking:
  "is_talking (state_of (update_idle_anim_options flt u rnd mn mx a)) = is_talking a"
  by (simp add: update_idle_anim_options_def Let_def update_idle_timer_def)

lemma panel_init_Inr:
  assumes "panel_init flt now u1 u2 ld v = Inr p"
  shows "level p = 0" and "last_switch p = now" and "\<not> mic_error_notified p"
    and "rms_queue p = []" and "timer_active p" and "notices p = 0"
    and "talk_th p = v_talk_th v" and "\<not> is_talking (avatar p)"
proof -
  let ?ps = "if v_idle_frames v \<noteq> [] then v_idle_frames v else [v_idle_image v]"
  let ?l = "load_images flt u1 ld ?ps (v_talk_image v) (v_talk_frames v)
              (avatar_fields (v_idle_anim_random v) (v_idle_interval_min v) (v_idle_interval_max v))"
  from assms obtain a where a: "?l = Ok a"
    by (cases ?l) (simp_all add: panel_init_def Let_def)
  let ?o = "update_idle_anim_options flt u2 (v_idle_anim_random v) (v_idle_interval_min v)
              (v_idle_interval_max v) a"
  from assms a obtain a' where a': "?o = Ok a'"
    by (cases ?o) (simp_all add: panel_init_def Let_def)
  from assms a a' have p: "p = \<lparr>level = 0, last_switch = now, mic_error_notified = False,
       rms_queue = [], meter_level = 0, talk_th = v_talk_th v, avatar = a',
       timer_active = True, notices = 0\<rparr>"
    by (simp add: panel_init_def Let_def)
  have "is_talking (state_of ?l)
      = is_talking (avatar_fields (v_idle_anim_random v) (v_idle_interval_min v)
          (v_idle_interval_max v) :: 'a avatar)"
    by (rule load_images_talking)
  then have "is_talking a
      = is_talking (avatar_fields (v_idle_anim_random v) (v_idle_interval_min v)
          (v_idle_interval_max v) :: 'a avatar)"
    unfolding a by simp
  then have "is_talking a = False"
    by (simp add: avatar_fields_def)
  moreover have "is_talking (state_of ?o) = is_talking a"
    by (rule update_idle_anim_options_talking)
  ultimately have "is_talking a' = False"
    unfolding a' by simp
  with p show "level p = 0" and "last_switch p = now" and "\<not> mic_error_notified p"
    and "rms_queue p = []" and "timer_active p" and "notices p = 0"
    and "talk_th p = v_talk_th v" and "\<not> is_talking (avatar p)"
    by simp_all
qed

text \<open>
  Claim C1. A new panel is idle. \<open>last_switch\<close> is the time of the last change of
  the talk state, and the time of construction while there has been none. On a poll tick
  that returns, with the smoothed level as the tick has updated it: an idle avatar
  becomes talking exactly when the level is above \<open>talk_th\<close> and more than 0.05 s
  have passed since \<open>last_switch\<close>; a talking
  avatar becomes idle exactly when the level is below \<open>talk_th * 0.7\<close> and more than
  0.05 s have passed since \<open>last_switch\<close>; and a level in the closed band from
  \<open>talk_th * 0.7\<close> to \<open>talk_th\<close> changes the talk state in neither direction.
\<close>

theorem talk_state_hysteresis:
  fixes p :: "'p panel" and p0 :: "'q panel"
  assumes "poll_try flt now u p = Ok p'"
  shows "poll_mic flt now u p = p'
    \<and> level p' = level p * (7 / 10) + fst (read (rms_queue p)) * (3 / 10)
    \<and> talk_th p' = talk_th p
    \<and> (\<not> is_talking (avatar p) \<longrightarrow>
         (is_talking (avatar p') \<longleftrightarrow> talk_th p < level p' \<and> 5 / 100 < now - last_switch p))
    \<and> (is_talking (avatar p) \<longrightarrow>
         (\<not> is_talking (avatar p') \<longleftrightarrow>
            level p' < talk_th p * (7 / 10) \<and> 5 / 100 < now - last_switch p))
    \<and> (talk_th p * (7 / 10) \<le> level p' \<and> level p' \<le> talk_th p \<longrightarrow>
         is_talking (avatar p') = is_talking (avatar p))
    \<and> (panel_init flt0 now0 u1 u2 ld v = Inr p0 \<longrightarrow> \<not> is_talking (avatar p0))"
proof -
  have s: "state_of (poll_try flt now u p) = p'" using assms by simp
  have m: "poll_mic flt now u p = p'" using assms by (simp add: poll_mic_def)
  have l: "level p' = level p * (7 / 10) + fst (read (rms_queue p)) * (3 / 10)"
    using poll_try_panel_fields(1)[of flt now u p] by (simp add: s)
  have th: "talk_th p' = talk_th p"
    using poll_try_panel_fields(6)[of flt now u p] by (simp add: s)
  have nr: "\<not> raised (set_level flt (level p * (7 / 10) + fst (read (rms_queue p)) * (3 / 10)) (meter_level p))"
    "\<not> raised (set_talk_level flt (level p * (7 / 10) + fst (read (rms_queue p)) * (3 / 10)) (avatar p))"
    using assms by (auto simp: poll_try_def Let_def case_prod_beta split: res.splits)
  have t: "is_talking (avatar p') =
     (if is_talking (avatar p)
        then \<not> (level p' < talk_th p * (7 / 10) \<and> now - last_switch p > 5 / 100)
        else (level p' > talk_th p \<and> now - last_switch p > 5 / 100))"
    using poll_try_talking[of flt now u p] nr by (simp add: s l)
  have i: "panel_init flt0 now0 u1 u2 ld v = Inr p0 \<longrightarrow> \<not> is_talking (avatar p0)"
    using panel_init_Inr(8) by blast
  from m l th t i show ?thesis by auto
qed



lemmas ex_eval = ex_state_def ex_start_eq ex_idle_eq ex_events_def tick_eval

theorem talk_state_hysteresis_witness:
  "poll_try {} 1 (1 / 2) (ex_state 1) = Ok (ex_state 2)
   \<and> \<not> is_talking (avatar (ex_state 1)) \<and> is_talking (avatar (ex_state 2))
   \<and> talk_th (ex_state 1) < level (ex_state 2) \<and> 5 / 100 < 1 - last_switch (ex_state 1)
   \<and> poll_try {} 3 (1 / 2) (ex_state 3) = Ok (ex_state 4)
   \<and> talk_th (ex_state 3) * (7 / 10) \<le> level (ex_state 4)
   \<and> level (ex_state 4) \<le> talk_th (ex_state 3)
   \<and> is_talking (avatar (ex_state 4)) = is_talking (avatar (ex_state 3))
   \<and> poll_try {} 4 (1 / 2) (ex_state 4) = Ok (ex_state 5)
   \<and> is_talking (avatar (ex_state 4)) \<and> \<not> is_talking (avatar (ex_state 5))
   \<and> level (ex_state 5) < talk_th (ex_state 4) * (7 / 10)
   \<and> 5 / 100 < 4 - last_switch (ex_state 4)
   \<and> panel_init {} 0 (1 / 2) (1 / 2) Some ex_settings = Inr ex_start
   \<and> \<not> is_talking (avatar ex_start)"
proof -
  have h1: "poll_try {} 1 (1 / 2) (ex_state 1) = Ok (ex_state 2)"
    by (simp add: ex_eval)
  have a1: "\<not> is_talking (avatar (ex_state 1))" by (simp add: ex_eval)
  have a2: "is_talking (avatar (ex_state 2))" by (simp add: ex_eval)
  from talk_state_hysteresis[OF h1] a1 a2
  have a3: "talk_th (ex_state 1) < level (ex_state 2) \<and> 5 / 100 < 1 - last_switch (ex_state 1)"
    by blast
  have h3: "poll_try {} 3 (1 / 2) (ex_state 3) = Ok (ex_state 4)"
    by (simp add: ex_eval)
  have b1: "talk_th (ex_state 3) * (7 / 10) \<le> level (ex_state 4)
      \<and> level (ex_state 4) \<le> talk_th (ex_state 3)"
    by (simp add: ex_eval)
  from talk_state_hysteresis[OF h3] b1
  have b2: "is_talking (avatar (ex_state 4)) = is_talking (avatar (ex_state 3))"
    by blast
  have h4: "poll_try {} 4 (1 / 2) (ex_state 4) = Ok (ex_state 5)"
    by (simp add: ex_eval)
  have c1: "is_talking (avatar (ex_state 4))" by (simp add: ex_eval)
  have c2: "\<not> is_talking (avatar (ex_state 5))" by (simp add: ex_eval)
  from talk_state_hysteresis[OF h4] c1 c2
  have c3: "level (ex_state 5) < talk_th (ex_state 4) * (7 / 10)
      \<and> 5 / 100 < 4 - last_switch (ex_state 4)"
    by blast
  have i1: "panel_init {} 0 (1 / 2) (1 / 2) Some ex_settings = Inr ex_start"
    by (rule ex_start_init)
  from talk_state_hysteresis[OF h1, where ?p0.0 = ex_start] i1
  have i2: "\<not> is_talking (avatar ex_start)" by blast
  from h1 a1 a2 a3 h3 b1 b2 h4 c1 c2 c3 i1 i2 show ?thesis by blast
qed












text \<open>
  Claim C4. A poll tick that comes at most 0.05 s after \<open>last_switch\<close> changes neither
  the talk state nor \<open>last_switch\<close>, whatever the level; a tick that leaves the talk
  state as it was leaves \<open>last_switch\<close> as it was, and a tick that changes
  \<open>last_switch\<close> sets it to the time of the tick. In every run, the times at which the
  talk state changed are more than 0.05 s apart from each other and from the
  \<open>last_switch\<close> the run started with.
\<close>

theorem dwell_time_guard:
  fixes p :: "'p panel"
  shows "(now - last_switch p \<le> 5 / 100 \<longrightarrow>
           is_talking (avatar (poll_mic flt now u p)) = is_talking (avatar p)
           \<and> last_switch (poll_mic flt now u p) = last_switch p)
    \<and> (is_talking (avatar (poll_mic flt now u p)) = is_talking (avatar p) \<longrightarrow>
           last_switch (poll_mic flt now u p) = last_switch p)
    \<and> (last_switch (poll_mic flt now u p) \<noteq> last_switch p \<longrightarrow>
           last_switch (poll_mic flt now u p) = now)
    \<and> successively (\<lambda>t t'. 5 / 100 < t' - t) (last_switch p # switches p es)"
proof -
  have a: "now - last_switch p \<le> 5 / 100 \<longrightarrow>
           is_talking (avatar (poll_mic flt now u p)) = is_talking (avatar p)"
    by (simp add: poll_mic_state poll_try_talking)
  have b: "is_talking (avatar (poll_mic flt now u p)) = is_talking (avatar p) \<longrightarrow>
           last_switch (poll_mic flt now u p) = last_switch p"
    by (simp add: poll_mic_state poll_try_last_switch)
  have c: "last_switch (poll_mic flt now u p) \<noteq> last_switch p \<longrightarrow>
           last_switch (poll_mic flt now u p) = now"
    by (simp add: poll_mic_state poll_try_last_switch)
  have d: "successively (\<lambda>t t'. 5 / 100 < t' - t) (last_switch p # switches p es)"
    by (rule switches_spaced)
  from a b c d show ?thesis by blast
qed

theorem dwell_time_guard_witness:
  "402 / 100 - last_switch (ex_state 6) \<le> (5 / 100 :: real)
   \<and> \<not> is_talking (avatar (ex_state 6))
   \<and> talk_th (ex_state 6) < level (poll_mic {} (402 / 100) (1 / 2) (ex_state 6))
   \<and> \<not> is_talking (avatar (poll_mic {} (402 / 100) (1 / 2) (ex_state 6)))
   \<and> last_switch (poll_mic {} (402 / 100) (1 / 2) (ex_state 6)) = 4
   \<and> last_switch (ex_state 6) = 4
   \<and> switches ex_start ex_events = [1, 4, 406 / 100]
   \<and> successively (\<lambda>t t'. 5 / 100 < t' - t) [0, 1, 4, 406 / 100 :: real]"
proof -
  note T = dwell_time_guard[where p = "ex_state 6" and now = "402 / 100" and flt = "{}"
      and u = "1 / 2"]
  have h: "402 / 100 - last_switch (ex_state 6) \<le> (5 / 100 :: real)"
    by (simp add: ex_eval)
  have i: "\<not> is_talking (avatar (ex_state 6))" by (simp add: ex_eval)
  have l: "talk_th (ex_state 6) < level (poll_mic {} (402 / 100) (1 / 2) (ex_state 6))"
    by (simp add: ex_eval)
  have s: "last_switch (ex_state 6) = 4" by (simp add: ex_eval)
  from T h have "is_talking (avatar (poll_mic {} (402 / 100) (1 / 2) (ex_state 6)))
      = is_talking (avatar (ex_state 6))
    \<and> last_switch (poll_mic {} (402 / 100) (1 / 2) (ex_state 6)) = last_switch (ex_state 6)"
    by blast
  with i s have n: "\<not> is_talking (avatar (poll_mic {} (402 / 100) (1 / 2) (ex_state 6)))
    \<and> last_switch (poll_mic {} (402 / 100) (1 / 2) (ex_state 6)) = 4"
    by simp
  have sw: "switches ex_start ex_events = [1, 4, 406 / 100]"
    by (simp add: ex_eval)
  have z: "last_switch ex_start = 0" by (simp add: ex_start_eq)
  from dwell_time_guard[where p = ex_start and es = ex_events]
  have "successively (\<lambda>t t'. 5 / 100 < t' - t) (last_switch ex_start # switches ex_start ex_events)"
    by blast
  then have g: "successively (\<lambda>t t'. 5 / 100 < t' - t) [0, 1, 4, 406 / 100 :: real]"
    unfolding sw z .
  from h i l n s sw g show ?thesis by blast
qed


section \<open>Properties of the idle timing\<close>













section \<open>Exceptions in the poll tick\<close>









end
